theory Spec2Isabelle
  imports Main "HOL-Library.Word" "HOL-Library.Sublist"
begin

section \<open>The entity model (internal/domain/user.go)\<close>

text \<open>
  Go's \<open>int64\<close> is a 64-bit word read in two's complement (\<open>sint\<close>); addition wraps.
  A \<open>time.Time\<close> is an instant, counted from the zero \<open>Time\<close>, so that the zero value
  of the struct field is \<open>0\<close>. A \<open>*User\<close> is an address of the heap, or \<open>nil\<close>.
\<close>

type_synonym int64 = "64 word"
type_synonym time = int
type_synonym addr = nat
type_synonym ptr = "addr option"

record User =
  ID :: int64
  Name :: string
  Email :: string
  CreatedAt :: time
  UpdatedAt :: time

text \<open>An \<open>error\<close> made by \<open>errors.New\<close>; a \<open>nil\<close> error is \<open>None\<close>.\<close>

datatype error = errorString string

fun Error :: "error \<Rightarrow> string" where
  "Error (errorString s) = s"

section \<open>The heap and the clock\<close>

text \<open>
  Every \<open>User\<close> value that a pointer refers to lives in \<open>cells\<close>. The addresses below
  \<open>brk\<close> are the allocated ones, and a new variable that escapes (\<open>copy := *u\<close> followed
  by \<open>&copy\<close>) takes the address \<open>brk\<close>. \<open>clock\<close> is what \<open>time.Now().UTC()\<close> reads.
  \<open>store\<close> is the state of the repository behind the \<open>UserRepository\<close> port.
\<close>

record 's world =
  cells :: "addr \<Rightarrow> User"
  brk :: addr
  clock :: time
  store :: 's

definition new :: "User \<Rightarrow> 's world \<Rightarrow> addr \<times> 's world" where
  "new v w = (brk w, w\<lparr>cells := (cells w)(brk w := v), brk := Suc (brk w)\<rparr>)"

text \<open>A caller that holds the pointer \<open>a\<close> assigns to the fields of \<open>*a\<close>.\<close>

definition caller_write :: "addr \<Rightarrow> (User \<Rightarrow> User) \<Rightarrow> 's world \<Rightarrow> 's world" where
  "caller_write a f w = (if a < brk w then w\<lparr>cells := (cells w)(a := f (cells w a))\<rparr> else w)"

section \<open>The in-memory store (internal/repository/memory/user_repository.go)\<close>

text \<open>
  The struct without its mutex: the calls of one store are taken one after the other,
  which is the order the lock and the atomic counter give them.
\<close>

record InMemoryUserRepository =
  autoIncID :: int64
  users :: "int64 \<rightharpoonup> addr"

type_synonym mem = "InMemoryUserRepository world"

definition NewInMemoryUserRepository :: InMemoryUserRepository where
  "NewInMemoryUserRepository = \<lparr>autoIncID = 0, users = Map.empty\<rparr>"

definition InMemoryUserRepository_Create :: "ptr \<Rightarrow> mem \<Rightarrow> (ptr \<times> error option) \<times> mem" where
  "InMemoryUserRepository_Create user w =
     (case user of
        None \<Rightarrow> ((None, Some (errorString ''nil user'')), w)
      | Some u \<Rightarrow>
          (let id' = autoIncID (store w) + 1;
               w1 = w\<lparr>store := (store w)\<lparr>autoIncID := id'\<rparr>\<rparr>;
               now = clock w1;
               (c, w2) = new (cells w1 u) w1;
               w3 = w2\<lparr>cells := (cells w2)(c := (cells w2 c)\<lparr>ID := id'\<rparr>)\<rparr>;
               w4 = w3\<lparr>cells := (cells w3)(c := (cells w3 c)\<lparr>CreatedAt := now\<rparr>)\<rparr>;
               w5 = w4\<lparr>cells := (cells w4)(c := (cells w4 c)\<lparr>UpdatedAt := now\<rparr>)\<rparr>;
               w6 = w5\<lparr>store := (store w5)\<lparr>users := (users (store w5))(id' \<mapsto> c)\<rparr>\<rparr>
           in ((Some c, None), w6)))"

definition InMemoryUserRepository_GetByID :: "int64 \<Rightarrow> mem \<Rightarrow> (ptr \<times> error option) \<times> mem" where
  "InMemoryUserRepository_GetByID id' w =
     (case users (store w) id' of
        None \<Rightarrow> ((None, Some (errorString ''user not found'')), w)
      | Some u \<Rightarrow> (let (c, w1) = new (cells w u) w in ((Some c, None), w1)))"

text \<open>
  Go leaves the order of \<open>range\<close> over a map open, and it may differ from one loop to
  the next: the keys in the order this loop visits them are the argument \<open>ks\<close>.
\<close>

fun List_range :: "(int64 \<rightharpoonup> addr) \<Rightarrow> int64 list \<Rightarrow> ptr list \<Rightarrow> 's world \<Rightarrow> ptr list \<times> 's world" where
  "List_range m [] result w = (result, w)"
| "List_range m (k # ks) result w =
     (case m k of
        None \<Rightarrow> List_range m ks result w
      | Some u \<Rightarrow> (let (c, w1) = new (cells w u) w in List_range m ks (result @ [Some c]) w1))"

definition InMemoryUserRepository_List :: "int64 list \<Rightarrow> mem \<Rightarrow> (ptr list option \<times> error option) \<times> mem" where
  "InMemoryUserRepository_List ks w =
     (let (result, w1) = List_range (users (store w)) ks [] w in ((Some result, None), w1))"

definition InMemoryUserRepository_Update :: "ptr \<Rightarrow> mem \<Rightarrow> (ptr \<times> error option) \<times> mem" where
  "InMemoryUserRepository_Update user w =
     (case user of
        None \<Rightarrow> ((None, Some (errorString ''nil user'')), w)
      | Some u \<Rightarrow>
          (case users (store w) (ID (cells w u)) of
             None \<Rightarrow> ((None, Some (errorString ''user not found'')), w)
           | Some existing \<Rightarrow>
               (let w1 = w\<lparr>cells := (cells w)(existing := (cells w existing)\<lparr>Name := Name (cells w u)\<rparr>)\<rparr>;
                    w2 = w1\<lparr>cells := (cells w1)(existing := (cells w1 existing)\<lparr>Email := Email (cells w1 u)\<rparr>)\<rparr>;
                    w3 = w2\<lparr>cells := (cells w2)(existing := (cells w2 existing)\<lparr>UpdatedAt := clock w2\<rparr>)\<rparr>;
                    (c, w4) = new (cells w3 existing) w3
                in ((Some c, None), w4))))"

definition InMemoryUserRepository_Delete :: "int64 \<Rightarrow> mem \<Rightarrow> error option \<times> mem" where
  "InMemoryUserRepository_Delete id' w =
     (case users (store w) id' of
        None \<Rightarrow> (Some (errorString ''user not found''), w)
      | Some u \<Rightarrow> (None, w\<lparr>store := (store w)\<lparr>users := (users (store w))(id' := None)\<rparr>\<rparr>))"

section \<open>The calls of one store, in sequence\<close>

text \<open>
  What a program does with one store: it calls the five methods, assigns through the
  pointers it holds, allocates records of its own, and the clock moves. \<open>step\<close> also
  gives the identifier a successful \<open>Create\<close> assigned, read from the returned record.
\<close>

datatype call =
    Call_Create ptr
  | Call_GetByID int64
  | Call_List "int64 list"
  | Call_Update ptr
  | Call_Delete int64
  | Caller_write addr User
  | Caller_new User
  | Clock_set time

fun step :: "call \<Rightarrow> mem \<Rightarrow> mem \<times> int64 list" where
  "step (Call_Create user) w =
     (case InMemoryUserRepository_Create user w of
        ((Some c, None), w1) \<Rightarrow> (w1, [ID (cells w1 c)])
      | ((_, _), w1) \<Rightarrow> (w1, []))"
| "step (Call_GetByID id') w = (snd (InMemoryUserRepository_GetByID id' w), [])"
| "step (Call_List ks) w = (snd (InMemoryUserRepository_List ks w), [])"
| "step (Call_Update user) w = (snd (InMemoryUserRepository_Update user w), [])"
| "step (Call_Delete id') w = (snd (InMemoryUserRepository_Delete id' w), [])"
| "step (Caller_write a v) w = (caller_write a (\<lambda>_. v) w, [])"
| "step (Caller_new v) w = (snd (new v w), [])"
| "step (Clock_set t) w = (w\<lparr>clock := t\<rparr>, [])"

fun run :: "call list \<Rightarrow> mem \<Rightarrow> mem \<times> int64 list" where
  "run [] w = (w, [])"
| "run (c # cs) w =
     (let (w1, ids1) = step c w; (w2, ids2) = run cs w1 in (w2, ids1 @ ids2))"

section \<open>The persistence port (internal/domain/user.go: UserRepository)\<close>

text \<open>
  The interface \<open>UserRepository\<close>: any implementation, over a state of its own, with the
  five methods. The in-memory store is one of them; the order in which its \<open>List\<close> ranges
  over the map is chosen by \<open>order\<close>.
\<close>

record 's UserRepository =
  Create :: "ptr \<Rightarrow> 's world \<Rightarrow> (ptr \<times> error option) \<times> 's world"
  GetByID :: "int64 \<Rightarrow> 's world \<Rightarrow> (ptr \<times> error option) \<times> 's world"
  List :: "'s world \<Rightarrow> (ptr list option \<times> error option) \<times> 's world"
  Update :: "ptr \<Rightarrow> 's world \<Rightarrow> (ptr \<times> error option) \<times> 's world"
  Delete :: "int64 \<Rightarrow> 's world \<Rightarrow> error option \<times> 's world"

definition InMemory :: "(mem \<Rightarrow> int64 list) \<Rightarrow> InMemoryUserRepository UserRepository" where
  "InMemory order =
     \<lparr>Create = InMemoryUserRepository_Create,
      GetByID = InMemoryUserRepository_GetByID,
      List = (\<lambda>w. InMemoryUserRepository_List (order w) w),
      Update = InMemoryUserRepository_Update,
      Delete = InMemoryUserRepository_Delete\<rparr>"

section \<open>The standard library the service and the handlers call\<close>

text \<open>
  \<open>strings.TrimSpace\<close> removes from both ends the runes for which \<open>unicode.IsSpace\<close>
  holds. A Go string is a sequence of bytes; a rune is removed exactly when the string
  starts (or ends) with its UTF-8 encoding, so the function is written on the encodings:
  the six ASCII spaces, U+0085, U+00A0, U+1680, U+2000 to U+200A, U+2028, U+2029, U+202F,
  U+205F and U+3000.
\<close>

definition space_runes :: "string list" where
  "space_runes =
     [[CHR 0x09], [CHR 0x0A], [CHR 0x0B], [CHR 0x0C], [CHR 0x0D], [CHR 0x20],
      [CHR 0xC2, CHR 0x85], [CHR 0xC2, CHR 0xA0], [CHR 0xE1, CHR 0x9A, CHR 0x80],
      [CHR 0xE2, CHR 0x80, CHR 0x80], [CHR 0xE2, CHR 0x80, CHR 0x81],
      [CHR 0xE2, CHR 0x80, CHR 0x82], [CHR 0xE2, CHR 0x80, CHR 0x83],
      [CHR 0xE2, CHR 0x80, CHR 0x84], [CHR 0xE2, CHR 0x80, CHR 0x85],
      [CHR 0xE2, CHR 0x80, CHR 0x86], [CHR 0xE2, CHR 0x80, CHR 0x87],
      [CHR 0xE2, CHR 0x80, CHR 0x88], [CHR 0xE2, CHR 0x80, CHR 0x89],
      [CHR 0xE2, CHR 0x80, CHR 0x8A], [CHR 0xE2, CHR 0x80, CHR 0xA8],
      [CHR 0xE2, CHR 0x80, CHR 0xA9], [CHR 0xE2, CHR 0x80, CHR 0xAF],
      [CHR 0xE2, CHR 0x81, CHR 0x9F], [CHR 0xE3, CHR 0x80, CHR 0x80]]"

definition leading_space :: "string \<Rightarrow> nat" where
  "leading_space s = (case find (\<lambda>p. prefix p s) space_runes of None \<Rightarrow> 0 | Some p \<Rightarrow> length p)"

definition trailing_space :: "string \<Rightarrow> nat" where
  "trailing_space s = (case find (\<lambda>p. suffix p s) space_runes of None \<Rightarrow> 0 | Some p \<Rightarrow> length p)"

lemma leading_space_le: "leading_space s \<le> length s"
  by (auto simp: leading_space_def find_Some_iff prefix_length_le split: option.splits)

lemma trailing_space_le: "trailing_space s \<le> length s"
  by (auto simp: trailing_space_def find_Some_iff suffix_length_le split: option.splits)

function TrimLeft :: "string \<Rightarrow> string" where
  "TrimLeft s = (if leading_space s = 0 then s else TrimLeft (drop (leading_space s) s))"
  by pat_completeness auto
termination
proof (relation "measure length")
  show "wf (measure length)" by simp
next
  fix s :: string
  assume "leading_space s \<noteq> 0"
  with leading_space_le [of s] show "(drop (leading_space s) s, s) \<in> measure length"
    by simp
qed

function TrimRight :: "string \<Rightarrow> string" where
  "TrimRight s = (if trailing_space s = 0 then s else TrimRight (take (length s - trailing_space s) s))"
  by pat_completeness auto
termination
proof (relation "measure length")
  show "wf (measure length)" by simp
next
  fix s :: string
  assume "trailing_space s \<noteq> 0"
  with trailing_space_le [of s] show "(take (length s - trailing_space s) s, s) \<in> measure length"
    by simp
qed

declare TrimLeft.simps [simp del] TrimRight.simps [simp del]

definition TrimSpace :: "string \<Rightarrow> string" where
  "TrimSpace s = TrimRight (TrimLeft s)"

text \<open>
  \<open>strconv.ParseInt(s, 10, 64)\<close>: an optional sign, then one or more decimal digits,
  and a value that fits \<open>int64\<close>. Its callers only test the error against \<open>nil\<close>, so
  a failure is \<open>None\<close>.
\<close>

fun ParseUint :: "string \<Rightarrow> nat \<Rightarrow> nat option" where
  "ParseUint [] n = Some n"
| "ParseUint (c # cs) n =
     (if 48 \<le> (of_char c :: nat) \<and> (of_char c :: nat) \<le> 57
      then ParseUint cs (n * 10 + (of_char c - 48)) else None)"

definition ParseInt :: "string \<Rightarrow> int64 option" where
  "ParseInt s =
     (case s of
        [] \<Rightarrow> None
      | c # cs \<Rightarrow>
          (let neg = (c = CHR ''-'');
               ds = (if c = CHR ''+'' \<or> c = CHR ''-'' then cs else s)
           in if ds = [] then None
              else (case ParseUint ds 0 of
                      None \<Rightarrow> None
                    | Some un \<Rightarrow>
                        if \<not> neg \<and> 2 ^ 63 \<le> un then None
                        else if neg \<and> 2 ^ 63 < un then None
                        else Some (if neg then - of_nat un else of_nat un))))"

section \<open>The application service (internal/usecase/user_service.go)\<close>

record 's UserService =
  repo :: "'s UserRepository"

definition NewUserService :: "'s UserRepository \<Rightarrow> 's UserService" where
  "NewUserService r = \<lparr>repo = r\<rparr>"

definition UserService_CreateUser ::
  "'s UserService \<Rightarrow> string \<Rightarrow> string \<Rightarrow> 's world \<Rightarrow> (ptr \<times> error option) \<times> 's world" where
  "UserService_CreateUser s name email w =
     (let name = TrimSpace name; email = TrimSpace email
      in if name = [] \<or> email = []
         then ((None, Some (errorString ''name and email are required'')), w)
         else (let (u, w1) = new \<lparr>ID = 0, Name = name, Email = email, CreatedAt = 0, UpdatedAt = 0\<rparr> w
               in Create (repo s) (Some u) w1))"

definition UserService_GetUser ::
  "'s UserService \<Rightarrow> int64 \<Rightarrow> 's world \<Rightarrow> (ptr \<times> error option) \<times> 's world" where
  "UserService_GetUser s id' w = GetByID (repo s) id' w"

definition UserService_ListUsers ::
  "'s UserService \<Rightarrow> 's world \<Rightarrow> (ptr list option \<times> error option) \<times> 's world" where
  "UserService_ListUsers s w = List (repo s) w"

definition UserService_UpdateUser ::
  "'s UserService \<Rightarrow> int64 \<Rightarrow> string \<Rightarrow> string \<Rightarrow> 's world \<Rightarrow> (ptr \<times> error option) \<times> 's world" where
  "UserService_UpdateUser s id' name email w =
     (let name = TrimSpace name; email = TrimSpace email
      in if name = [] \<or> email = []
         then ((None, Some (errorString ''name and email are required'')), w)
         else (let (u, w1) = new \<lparr>ID = id', Name = name, Email = email, CreatedAt = 0, UpdatedAt = 0\<rparr> w
               in Update (repo s) (Some u) w1))"

definition UserService_DeleteUser ::
  "'s UserService \<Rightarrow> int64 \<Rightarrow> 's world \<Rightarrow> error option \<times> 's world" where
  "UserService_DeleteUser s id' w = Delete (repo s) id' w"

section \<open>The transport adapter (package http: UserHandler)\<close>

text \<open>
  Of a request the handlers read the path value \<open>id\<close> and the body. The body is taken
  as \<open>json.Decoder.Decode\<close> delivers it into the struct of \<open>name\<close> and \<open>email\<close>:
  \<open>None\<close> when \<open>Decode\<close> returns an error, the two fields otherwise (a missing field is
  the empty string). A response is the status, the \<open>Content-Type\<close> header and the value
  that was encoded as the body, if any.
\<close>

record Request =
  PathValue_id :: string
  Body :: "(string \<times> string) option"

datatype json =
    JSON_error string
  | JSON_user "User option"
  | JSON_users "User option list option"

record Response =
  status :: nat
  Content_Type :: "string option"
  body :: "json option"

abbreviation StatusOK :: nat where "StatusOK \<equiv> 200"
abbreviation StatusCreated :: nat where "StatusCreated \<equiv> 201"
abbreviation StatusNoContent :: nat where "StatusNoContent \<equiv> 204"
abbreviation StatusBadRequest :: nat where "StatusBadRequest \<equiv> 400"
abbreviation StatusNotFound :: nat where "StatusNotFound \<equiv> 404"
abbreviation StatusInternalServerError :: nat where "StatusInternalServerError \<equiv> 500"

record 's UserHandler =
  service :: "'s UserService"

definition NewUserHandler :: "'s UserService \<Rightarrow> 's UserHandler" where
  "NewUserHandler s = \<lparr>service = s\<rparr>"

definition writeJSON :: "nat \<Rightarrow> json \<Rightarrow> Response" where
  "writeJSON st v = \<lparr>status = st, Content_Type = Some ''application/json'', body = Some v\<rparr>"

definition parseID :: "Request \<Rightarrow> int64 option" where
  "parseID r = ParseInt (PathValue_id r)"

definition UserHandler_CreateUser :: "'s UserHandler \<Rightarrow> Request \<Rightarrow> 's world \<Rightarrow> Response \<times> 's world" where
  "UserHandler_CreateUser h r w =
     (case Body r of
        None \<Rightarrow> (writeJSON StatusBadRequest (JSON_error ''invalid JSON''), w)
      | Some (req_Name, req_Email) \<Rightarrow>
          (case UserService_CreateUser (service h) req_Name req_Email w of
             ((user, Some err), w1) \<Rightarrow> (writeJSON StatusBadRequest (JSON_error (Error err)), w1)
           | ((user, None), w1) \<Rightarrow> (writeJSON StatusCreated (JSON_user (map_option (cells w1) user)), w1)))"

definition UserHandler_GetUser :: "'s UserHandler \<Rightarrow> Request \<Rightarrow> 's world \<Rightarrow> Response \<times> 's world" where
  "UserHandler_GetUser h r w =
     (case parseID r of
        None \<Rightarrow> (writeJSON StatusBadRequest (JSON_error ''invalid id''), w)
      | Some id' \<Rightarrow>
          (case UserService_GetUser (service h) id' w of
             ((user, Some err), w1) \<Rightarrow> (writeJSON StatusNotFound (JSON_error ''user not found''), w1)
           | ((user, None), w1) \<Rightarrow> (writeJSON StatusOK (JSON_user (map_option (cells w1) user)), w1)))"

definition UserHandler_ListUsers :: "'s UserHandler \<Rightarrow> Request \<Rightarrow> 's world \<Rightarrow> Response \<times> 's world" where
  "UserHandler_ListUsers h r w =
     (case UserService_ListUsers (service h) w of
        ((us, Some err), w1) \<Rightarrow> (writeJSON StatusInternalServerError (JSON_error ''internal error''), w1)
      | ((us, None), w1) \<Rightarrow>
          (writeJSON StatusOK (JSON_users (map_option (map (map_option (cells w1))) us)), w1))"

definition UserHandler_UpdateUser :: "'s UserHandler \<Rightarrow> Request \<Rightarrow> 's world \<Rightarrow> Response \<times> 's world" where
  "UserHandler_UpdateUser h r w =
     (case parseID r of
        None \<Rightarrow> (writeJSON StatusBadRequest (JSON_error ''invalid id''), w)
      | Some id' \<Rightarrow>
          (case Body r of
             None \<Rightarrow> (writeJSON StatusBadRequest (JSON_error ''invalid JSON''), w)
           | Some (req_Name, req_Email) \<Rightarrow>
               (case UserService_UpdateUser (service h) id' req_Name req_Email w of
                  ((user, Some err), w1) \<Rightarrow> (writeJSON StatusBadRequest (JSON_error (Error err)), w1)
                | ((user, None), w1) \<Rightarrow> (writeJSON StatusOK (JSON_user (map_option (cells w1) user)), w1))))"

definition UserHandler_DeleteUser :: "'s UserHandler \<Rightarrow> Request \<Rightarrow> 's world \<Rightarrow> Response \<times> 's world" where
  "UserHandler_DeleteUser h r w =
     (case parseID r of
        None \<Rightarrow> (writeJSON StatusBadRequest (JSON_error ''invalid id''), w)
      | Some id' \<Rightarrow>
          (case UserService_DeleteUser (service h) id' w of
             (Some err, w1) \<Rightarrow> (writeJSON StatusNotFound (JSON_error ''user not found''), w1)
           | (None, w1) \<Rightarrow> (\<lparr>status = StatusNoContent, Content_Type = None, body = None\<rparr>, w1)))"

section \<open>A program's first state\<close>

text \<open>Nothing is allocated yet, and the store is the one \<open>NewInMemoryUserRepository\<close> makes.\<close>

definition world0 :: mem where
  "world0 =
     \<lparr>cells = (\<lambda>_. \<lparr>ID = 0, Name = [], Email = [], CreatedAt = 0, UpdatedAt = 0\<rparr>),
      brk = 0, clock = 1000, store = NewInMemoryUserRepository\<rparr>"

definition john :: User where
  "john = \<lparr>ID = 0, Name = ''John Doe'', Email = ''john@example.com'', CreatedAt = 0, UpdatedAt = 0\<rparr>"

definition jane :: User where
  "jane = \<lparr>ID = 1, Name = ''Jane Doe'', Email = ''jane@example.com'', CreatedAt = 0, UpdatedAt = 0\<rparr>"

definition world1 :: mem where
  "world1 = fst (run [Caller_new john, Call_Create (Some 0), Clock_set 2000, Caller_new jane] world0)"

definition world2 :: mem where
  "world2 = fst (run [Caller_new john, Call_Create (Some 0), Call_Create (Some 0)] world0)"

text \<open>
  One order in which \<open>List\<close> may range over the map: by ascending key.
\<close>

definition key_order :: "mem \<Rightarrow> int64 list" where
  "key_order w = sorted_list_of_set (dom (users (store w)))"

text \<open>
  Another implementation of the port, as the README invites: a repository that cannot
  reach its database, so that every call fails with an error of its own.
\<close>

definition unreachable_repository :: "'s UserRepository" where
  "unreachable_repository =
     \<lparr>Create = (\<lambda>user w. ((None, Some (errorString ''connection refused'')), w)),
      GetByID = (\<lambda>id' w. ((None, Some (errorString ''connection refused'')), w)),
      List = (\<lambda>w. ((None, Some (errorString ''connection refused'')), w)),
      Update = (\<lambda>user w. ((None, Some (errorString ''connection refused'')), w)),
      Delete = (\<lambda>id' w. (Some (errorString ''connection refused''), w))\<rparr>"

section \<open>Facts about the heap and the counter\<close>

lemma User_fields_overwritten:
  "(v :: User)\<lparr>ID := i, CreatedAt := c, UpdatedAt := t\<rparr> =
     \<lparr>ID = i, Name = Name v, Email = Email v, CreatedAt = c, UpdatedAt = t\<rparr>"
  by (cases v) simp

lemma List_range_store: "store (snd (List_range m ks res w)) = store w"
  by (induction m ks res w rule: List_range.induct) (auto simp: new_def split: option.splits)

lemma step_ids:
  "step c w = (w', ids) \<Longrightarrow>
     (ids = [] \<and> autoIncID (store w') = autoIncID (store w)) \<or>
     (ids = [autoIncID (store w) + 1] \<and> autoIncID (store w') = autoIncID (store w) + 1)"
proof (cases c)
  case (Call_List ks)
  assume "step c w = (w', ids)"
  with Call_List List_range_store [of "users (store w)" ks "[]" w] show ?thesis
    by (auto simp: InMemoryUserRepository_List_def split: prod.splits)
qed (auto simp: InMemoryUserRepository_Create_def InMemoryUserRepository_GetByID_def
      InMemoryUserRepository_Update_def InMemoryUserRepository_Delete_def new_def
      caller_write_def Let_def split: option.splits prod.splits if_splits)

lemma run_ids:
  "run cs w = (w', ids) \<Longrightarrow>
     ids = map (\<lambda>i. autoIncID (store w) + of_nat i) [1..<Suc (length ids)] \<and>
     autoIncID (store w') = autoIncID (store w) + of_nat (length ids)"
proof (induction cs arbitrary: w w' ids)
  case Nil
  then show ?case by simp
next
  case (Cons c cs)
  obtain w1 ids1 where s: "step c w = (w1, ids1)" by (cases "step c w")
  obtain w2 ids2 where r: "run cs w1 = (w2, ids2)" by (cases "run cs w1")
  from Cons.prems s r have eq: "w' = w2" "ids = ids1 @ ids2" by simp_all
  note ih = Cons.IH [OF r]
  from step_ids [OF s] show ?case
  proof
    assume "ids1 = [] \<and> autoIncID (store w1) = autoIncID (store w)"
    with ih eq show ?thesis by simp
  next
    assume a: "ids1 = [autoIncID (store w) + 1] \<and> autoIncID (store w1) = autoIncID (store w) + 1"
    have "[1..<Suc (Suc (length ids2))] = 1 # map Suc [1..<Suc (length ids2)]"
      by (simp add: upt_conv_Cons map_Suc_upt del: upt_Suc)
    with ih eq a show ?thesis
      by (simp add: o_def add.assoc del: upt_Suc)
  qed
qed

lemma sint_add_of_nat:
  fixes c :: int64
  assumes "sint c + int i < 2 ^ 63"
  shows "sint (c + of_nat i) = sint c + int i"
proof -
  have "c + of_nat i = word_of_int (sint c + int i)"
    by simp
  then have "sint (c + of_nat i) = signed_take_bit 63 (sint c + int i)"
    by (simp only: sint_sbintrunc') simp
  moreover have "- (2 ^ 63) \<le> sint c"
    using sint_ge [of c] by simp
  ultimately show ?thesis
    using assms by (simp add: signed_take_bit_int_eq_self)
qed

lemma counter_ids_increasing:
  fixes c :: int64
  assumes "sint c + int n < 2 ^ 63"
  shows "sorted_wrt (<s) (map (\<lambda>i. c + of_nat i) [1..<Suc n])"
proof -
  have "sorted_wrt (\<lambda>i j. c + of_nat i <s c + of_nat j) [1..<Suc n]"
  proof (rule sorted_wrt_mono_rel [where P = "(<)"])
    fix i j
    assume "i \<in> set [1..<Suc n]" "j \<in> set [1..<Suc n]" "i < j"
    then have "i \<le> n" "j \<le> n" by auto
    with assms have "sint c + int i < 2 ^ 63" "sint c + int j < 2 ^ 63" by linarith+
    with \<open>i < j\<close> show "c + of_nat i <s c + of_nat j"
      by (simp add: word_sless_alt sint_add_of_nat)
  qed (rule sorted_wrt_upt)
  then show ?thesis by (simp add: sorted_wrt_map del: upt_Suc)
qed

lemma sless_sorted_distinct: "sorted_wrt (<s) (xs :: int64 list) \<Longrightarrow> distinct xs"
  by (induction xs) (auto simp: word_sless_alt)

lemma run_ids_increasing:
  assumes "run cs w = (w', ids)"
    and "sint (autoIncID (store w)) + int (length ids) < 2 ^ 63"
  shows "sorted_wrt (<s) ids"
proof -
  from run_ids [OF assms(1)]
  have "ids = map (\<lambda>i. autoIncID (store w) + of_nat i) [1..<Suc (length ids)]"
    by blast
  with counter_ids_increasing [OF assms(2)] show ?thesis
    by simp
qed

section \<open>Stored records stay allocated\<close>

text \<open>
  In every state that calls reach from a new store, the addresses in the map are
  allocated ones. The theorems on \<open>Update\<close> and \<open>List\<close> below assume this of the state
  they start from.
\<close>

lemma List_range_brk: "brk w \<le> brk (snd (List_range m ks res w))"
proof (induction ks arbitrary: res w)
  case Nil
  then show ?case by simp
next
  case (Cons k ks)
  show ?case
  proof (cases "m k")
    case None
    with Cons show ?thesis by simp
  next
    case (Some u)
    let ?w1 = "w\<lparr>cells := (cells w)(brk w := cells w u), brk := Suc (brk w)\<rparr>"
    from Cons [of ?w1 "res @ [Some (brk w)]"] Some show ?thesis
      by (simp add: new_def)
  qed
qed

lemma step_entries_allocated:
  assumes "step c w = (w', ids)"
    and "\<forall>k a. users (store w) k = Some a \<longrightarrow> a < brk w"
  shows "\<forall>k a. users (store w') k = Some a \<longrightarrow> a < brk w'"
proof (cases c)
  case (Call_List ks)
  with assms(1) have w': "w' = snd (List_range (users (store w)) ks [] w)"
    by (auto simp: InMemoryUserRepository_List_def split: prod.splits)
  from List_range_store [of "users (store w)" ks "[]" w] List_range_brk [of w "users (store w)" ks "[]"]
    assms(2) show ?thesis
    unfolding w' by (metis less_le_trans)
next
  case (Call_Create user)
  with assms show ?thesis
    by (cases user)
      (auto simp: InMemoryUserRepository_Create_def new_def Let_def less_Suc_eq split: if_splits)
next
  case (Call_GetByID i)
  with assms show ?thesis
    by (auto simp: InMemoryUserRepository_GetByID_def new_def less_Suc_eq split: option.splits)
next
  case (Call_Update user)
  with assms show ?thesis
    by (cases user)
      (auto simp: InMemoryUserRepository_Update_def new_def Let_def less_Suc_eq split: option.splits)
next
  case (Call_Delete i)
  with assms show ?thesis
    by (auto simp: InMemoryUserRepository_Delete_def split: option.splits if_splits)
next
  case (Caller_write a v)
  with assms show ?thesis
    by (auto simp: caller_write_def split: if_splits)
next
  case (Caller_new v)
  with assms show ?thesis
    by (auto simp: new_def less_Suc_eq)
next
  case (Clock_set t)
  with assms show ?thesis
    by auto
qed

lemma run_entries_allocated:
  assumes "run cs w = (w', ids)"
    and "\<forall>k a. users (store w) k = Some a \<longrightarrow> a < brk w"
  shows "\<forall>k a. users (store w') k = Some a \<longrightarrow> a < brk w'"
  using assms
proof (induction cs arbitrary: w w' ids)
  case Nil
  then show ?case by simp
next
  case (Cons c cs)
  obtain w1 ids1 where s: "step c w = (w1, ids1)" by (cases "step c w")
  obtain w2 ids2 where r: "run cs w1 = (w2, ids2)" by (cases "run cs w1")
  from Cons.prems(1) s r have eq: "w' = w2" by simp
  from Cons.IH [OF r step_entries_allocated [OF s Cons.prems(2)]] eq show ?case
    by simp
qed

lemma new_store_entries_allocated:
  assumes "store w0 = NewInMemoryUserRepository" and "run cs w0 = (w, ids)"
  shows "\<forall>k a. users (store w) k = Some a \<longrightarrow> a < brk w"
  using run_entries_allocated [OF assms(2)] assms(1)
  by (simp add: NewInMemoryUserRepository_def)

section \<open>The store: Create\<close>

text \<open>
  Claim C3. \<open>Create\<close> on a \<open>nil\<close> record returns the error \<open>nil user\<close> and leaves the
  whole state as it was, and it returns an error exactly when the record is \<open>nil\<close>.
  On a record \<open>u\<close> it returns, with a \<open>nil\<close> error, the address of a new record that
  has the name and the email of \<open>u\<close>, the next identifier (the counter plus one) and
  the clock's time as both \<open>CreatedAt\<close> and \<open>UpdatedAt\<close>, whatever identifier and times
  \<open>u\<close> held; the map gets that address under the new identifier, and the counter is the
  new identifier.
\<close>

theorem Create_stores_and_returns:
  "InMemoryUserRepository_Create None w = ((None, Some (errorString ''nil user'')), w)
   \<and> (let id' = autoIncID (store w) + 1;
           c = brk w;
           stored = \<lparr>ID = id', Name = Name (cells w u), Email = Email (cells w u),
                     CreatedAt = clock w, UpdatedAt = clock w\<rparr>
       in InMemoryUserRepository_Create (Some u) w =
            ((Some c, None),
             w\<lparr>cells := (cells w)(c := stored), brk := Suc c,
               store := (store w)\<lparr>autoIncID := id', users := (users (store w))(id' \<mapsto> c)\<rparr>\<rparr>)
          \<and> CreatedAt stored = UpdatedAt stored)
   \<and> ((snd (fst (InMemoryUserRepository_Create user w)) \<noteq> None) = (user = None))"
  by (cases user)
    (simp_all add: InMemoryUserRepository_Create_def new_def Let_def User_fields_overwritten)

text \<open>
  Claim C2. In any sequence of calls on one store, the identifiers that the successful
  \<open>Create\<close> calls assign are, in call order, strictly increasing as signed 64-bit
  numbers, hence pairwise distinct; the counter ends advanced by the number of
  successful \<open>Create\<close> calls, one for each; a \<open>Create\<close> on \<open>nil\<close> leaves the counter.
  The order is the order of \<open>int64\<close>, so the counter must not pass \<open>2^63 - 1\<close> during
  the sequence.
\<close>

theorem Create_ids_strictly_increasing:
  assumes "run cs w = (w', ids)"
    and "sint (autoIncID (store w)) + int (length ids) < 2 ^ 63"
  shows "sorted_wrt (<s) ids \<and> distinct ids
       \<and> autoIncID (store w') = autoIncID (store w) + of_nat (length ids)
       \<and> autoIncID (store (snd (InMemoryUserRepository_Create (Some u) w))) = autoIncID (store w) + 1
       \<and> autoIncID (store (snd (InMemoryUserRepository_Create None w))) = autoIncID (store w)"
proof -
  from run_ids [OF assms(1)]
  have cnt: "autoIncID (store w') = autoIncID (store w) + of_nat (length ids)"
    by blast
  from run_ids_increasing [OF assms] have inc: "sorted_wrt (<s) ids" .
  have "autoIncID (store (snd (InMemoryUserRepository_Create (Some u) w))) = autoIncID (store w) + 1"
    by (simp add: InMemoryUserRepository_Create_def new_def Let_def)
  moreover have "autoIncID (store (snd (InMemoryUserRepository_Create None w))) = autoIncID (store w)"
    by (simp add: InMemoryUserRepository_Create_def)
  ultimately show ?thesis
    using inc cnt sless_sorted_distinct [OF inc] by simp
qed

theorem Create_ids_strictly_increasing_witness:
  "snd (run [Caller_new john, Call_Create (Some 0), Call_Create None, Call_Create (Some 0)] world0)
     = [1, 2]
   \<and> sorted_wrt (<s) [1, 2 :: int64] \<and> distinct [1, 2 :: int64]"
proof -
  let ?cs = "[Caller_new john, Call_Create (Some 0), Call_Create None, Call_Create (Some 0)]"
  have ids: "snd (run ?cs world0) = [1, 2]"
    by (simp add: world0_def john_def NewInMemoryUserRepository_def
        InMemoryUserRepository_Create_def new_def Let_def)
  have r: "run ?cs world0 = (fst (run ?cs world0), [1, 2])"
    using ids by (metis prod.collapse)
  have b: "sint (autoIncID (store world0)) + int (length [1, 2 :: int64]) < 2 ^ 63"
    by (simp add: world0_def NewInMemoryUserRepository_def)
  from Create_ids_strictly_increasing [OF r b] ids show ?thesis
    by simp
qed

section \<open>Which identifiers the map holds\<close>

lemma step_dom:
  "step c w = (w', ids) \<Longrightarrow> dom (users (store w')) \<subseteq> dom (users (store w)) \<union> set ids"
proof (cases c)
  case (Call_List ks)
  assume "step c w = (w', ids)"
  with Call_List List_range_store [of "users (store w)" ks "[]" w] show ?thesis
    by (auto simp: InMemoryUserRepository_List_def split: prod.splits)
qed (auto simp: InMemoryUserRepository_Create_def InMemoryUserRepository_GetByID_def
      InMemoryUserRepository_Update_def InMemoryUserRepository_Delete_def new_def
      caller_write_def Let_def split: option.splits prod.splits if_splits)

lemma run_dom:
  "run cs w = (w', ids) \<Longrightarrow> dom (users (store w')) \<subseteq> dom (users (store w)) \<union> set ids"
proof (induction cs arbitrary: w w' ids)
  case Nil
  then show ?case by simp
next
  case (Cons c cs)
  obtain w1 ids1 where s: "step c w = (w1, ids1)" by (cases "step c w")
  obtain w2 ids2 where r: "run cs w1 = (w2, ids2)" by (cases "run cs w1")
  from Cons.prems s r have eq: "w' = w2" "ids = ids1 @ ids2" by simp_all
  from step_dom [OF s] Cons.IH [OF r] eq show ?case by (simp add: subset_iff) blast
qed

lemma run_append:
  "run (as @ bs) w = (let (w1, ids1) = run as w; (w2, ids2) = run bs w1 in (w2, ids1 @ ids2))"
  by (induction as arbitrary: w) (simp_all split: prod.splits)

section \<open>The store: Delete\<close>

text \<open>
  Claim C5. Take a new store, any calls on it, a \<open>Delete\<close> of \<open>id'\<close> that succeeds, and
  any calls after it. Right after the \<open>Delete\<close>, and after the later calls too,
  \<open>GetByID\<close> of \<open>id'\<close> returns the error \<open>user not found\<close>; \<open>id'\<close> was assigned by an
  earlier \<open>Create\<close> and no later \<open>Create\<close> assigns it; all identifiers assigned over the
  store's life are pairwise distinct; \<open>Delete\<close> leaves the counter. \<open>Delete\<close> succeeds
  exactly when the map has the identifier, fails with \<open>user not found\<close> exactly when it
  has not, and then leaves the state as it was. The counter is an \<open>int64\<close>: the store's
  life has fewer than \<open>2^63\<close> successful \<open>Create\<close> calls.
\<close>

theorem Delete_is_final:
  assumes new: "store w0 = NewInMemoryUserRepository"
    and before: "run cs0 w0 = (w, ids0)"
    and del: "InMemoryUserRepository_Delete id' w = (None, w1)"
    and after: "run cs1 w1 = (w2, ids1)"
    and bound: "int (length ids0 + length ids1) < 2 ^ 63"
  shows "InMemoryUserRepository_GetByID id' w1 = ((None, Some (errorString ''user not found'')), w1)
       \<and> InMemoryUserRepository_GetByID id' w2 = ((None, Some (errorString ''user not found'')), w2)
       \<and> id' \<in> set ids0 \<and> id' \<notin> set ids1 \<and> distinct (ids0 @ ids1)
       \<and> autoIncID (store w1) = autoIncID (store w)
       \<and> (fst (InMemoryUserRepository_Delete k v) = None) = (users (store v) k \<noteq> None)
       \<and> (fst (InMemoryUserRepository_Delete k v) = Some (errorString ''user not found''))
           = (users (store v) k = None)
       \<and> (users (store v) k = None \<longrightarrow> snd (InMemoryUserRepository_Delete k v) = v)"
proof -
  from del have stored: "id' \<in> dom (users (store w))"
    and w1: "w1 = w\<lparr>store := (store w)\<lparr>users := (users (store w))(id' := None)\<rparr>\<rparr>"
    by (auto simp: InMemoryUserRepository_Delete_def split: option.splits)
  from run_dom [OF before] new have "dom (users (store w)) \<subseteq> set ids0"
    by (simp add: NewInMemoryUserRepository_def)
  with stored have in0: "id' \<in> set ids0" by blast
  have step_del: "step (Call_Delete id') w = (w1, [])"
    using del by simp
  have whole: "run (cs0 @ Call_Delete id' # cs1) w0 = (w2, ids0 @ ids1)"
    using before after step_del by (simp add: run_append)
  have "sint (autoIncID (store w0)) + int (length (ids0 @ ids1)) < 2 ^ 63"
    using new bound by (simp add: NewInMemoryUserRepository_def)
  from run_ids_increasing [OF whole this] have dist: "distinct (ids0 @ ids1)"
    by (rule sless_sorted_distinct)
  with in0 have notin1: "id' \<notin> set ids1" by auto
  from w1 have gone: "users (store w1) id' = None" by simp
  from run_dom [OF after] gone notin1 have gone2: "users (store w2) id' = None"
    by blast
  show ?thesis
    using gone gone2 in0 notin1 dist w1
    by (auto simp: InMemoryUserRepository_GetByID_def InMemoryUserRepository_Delete_def
        split: option.splits)
qed

theorem Delete_is_final_witness:
  "fst (InMemoryUserRepository_Delete 1 (fst (run [Caller_new john, Call_Create (Some 0)] world0))) = None
   \<and> snd (run [Caller_new john, Call_Create (Some 0)] world0) = [1]
   \<and> snd (run [Call_Create (Some 0)]
        (snd (InMemoryUserRepository_Delete 1 (fst (run [Caller_new john, Call_Create (Some 0)] world0)))))
       = [2]
   \<and> fst (InMemoryUserRepository_GetByID 1
        (snd (InMemoryUserRepository_Delete 1 (fst (run [Caller_new john, Call_Create (Some 0)] world0)))))
       = (None, Some (errorString ''user not found''))"
proof -
  let ?cs0 = "[Caller_new john, Call_Create (Some 0)]"
  let ?w = "fst (run ?cs0 world0)"
  let ?w1 = "snd (InMemoryUserRepository_Delete 1 ?w)"
  let ?cs1 = "[Call_Create (Some 0)]"
  let ?w2 = "fst (run ?cs1 ?w1)"
  note defs = world0_def john_def NewInMemoryUserRepository_def
    InMemoryUserRepository_Create_def InMemoryUserRepository_Delete_def new_def Let_def
  have new: "store world0 = NewInMemoryUserRepository"
    by (simp add: world0_def)
  have ids0: "snd (run ?cs0 world0) = [1]"
    by (simp add: defs)
  have before: "run ?cs0 world0 = (?w, [1])"
    using ids0 by (metis prod.collapse)
  have ok: "fst (InMemoryUserRepository_Delete 1 ?w) = None"
    by (simp add: defs)
  have del: "InMemoryUserRepository_Delete 1 ?w = (None, ?w1)"
    using ok by (metis prod.collapse)
  have ids1: "snd (run ?cs1 ?w1) = [2]"
    by (simp add: defs)
  have after: "run ?cs1 ?w1 = (?w2, [2])"
    using ids1 by (metis prod.collapse)
  have bound: "int (length [1 :: int64] + length [2 :: int64]) < 2 ^ 63"
    by simp
  from Delete_is_final [OF new before del after bound] ok ids0 ids1 show ?thesis
    by simp
qed

section \<open>The store: what its callers hold\<close>

text \<open>
  Claim C1, at the input where the code departs from it. A caller allocates John's
  record (address 0) and calls \<open>Create\<close> on a new store. The pointer that comes back
  (address 1) is the pointer the map holds under the identifier 1: \<open>Create\<close> takes
  \<open>&copy\<close> once for the map and once for the result. The caller assigns a new name
  through it, and \<open>GetByID\<close> of 1 then returns a record with that name.
\<close>

theorem Create_returns_the_stored_pointer:
  "(let w1 = snd (new john world0);
        r = InMemoryUserRepository_Create (Some 0) w1;
        w2 = snd r;
        w3 = caller_write 1 (\<lambda>v. v\<lparr>Name := ''Modified Name''\<rparr>) w2;
        g = InMemoryUserRepository_GetByID 1 w3
    in fst r = (Some 1, None) \<and> users (store w2) 1 = Some 1
       \<and> Name (cells w2 1) = ''John Doe''
       \<and> fst g = (Some 2, None) \<and> Name (cells (snd g) 2) = ''Modified Name'')"
  by (simp add: world0_def john_def NewInMemoryUserRepository_def
      InMemoryUserRepository_Create_def InMemoryUserRepository_GetByID_def
      caller_write_def new_def Let_def)

text \<open>\<open>GetByID\<close> does return the address of a new variable, as \<open>List\<close> and \<open>Update\<close> do.\<close>

lemma GetByID_returns_new_copy:
  assumes "users (store w) id' = Some a"
  shows "InMemoryUserRepository_GetByID id' w =
           ((Some (brk w), None), w\<lparr>cells := (cells w)(brk w := cells w a), brk := Suc (brk w)\<rparr>)"
  using assms by (simp add: InMemoryUserRepository_GetByID_def new_def)

section \<open>The store: Update\<close>



lemma world1_eq:
  "world1 =
     \<lparr>cells = (cells world0)(0 := john, 1 := john\<lparr>ID := 1, CreatedAt := 1000, UpdatedAt := 1000\<rparr>,
                              2 := jane),
      brk = 3, clock = 2000,
      store = \<lparr>autoIncID = 1, users = [1 \<mapsto> 1]\<rparr>\<rparr>"
  by (simp add: world1_def world0_def NewInMemoryUserRepository_def
      InMemoryUserRepository_Create_def caller_write_def new_def Let_def numeral_2_eq_2)


section \<open>The store: List\<close>

lemma List_range_copies:
  assumes "\<forall>k\<in>set ks. \<exists>a. m k = Some a \<and> a < brk w"
  shows "fst (List_range m ks res w) = res @ map Some [brk w..<brk w + length ks]
       \<and> brk (snd (List_range m ks res w)) = brk w + length ks
       \<and> clock (snd (List_range m ks res w)) = clock w
       \<and> (\<forall>a<brk w. cells (snd (List_range m ks res w)) a = cells w a)
       \<and> (\<forall>i<length ks. cells (snd (List_range m ks res w)) (brk w + i) = cells w (the (m (ks ! i))))"
  using assms
proof (induction ks arbitrary: res w)
  case Nil
  then show ?case by simp
next
  case (Cons k ks)
  from Cons.prems obtain a where a: "m k = Some a" "a < brk w" by auto
  let ?w1 = "w\<lparr>cells := (cells w)(brk w := cells w a), brk := Suc (brk w)\<rparr>"
  have step: "List_range m (k # ks) res w = List_range m ks (res @ [Some (brk w)]) ?w1"
    using a by (simp add: new_def)
  have pre: "\<forall>k\<in>set ks. \<exists>a. m k = Some a \<and> a < brk ?w1"
    using Cons.prems by (auto intro: less_SucI)
  note ih = Cons.IH [OF pre, of "res @ [Some (brk w)]"]
  let ?w' = "snd (List_range m ks (res @ [Some (brk w)]) ?w1)"
  have ih1: "fst (List_range m ks (res @ [Some (brk w)]) ?w1) =
      (res @ [Some (brk w)]) @ map Some [brk ?w1..<brk ?w1 + length ks]"
    and ih2: "brk ?w' = brk ?w1 + length ks"
    and ih3: "clock ?w' = clock ?w1"
    and ih4: "\<forall>x<brk ?w1. cells ?w' x = cells ?w1 x"
    and ih5: "\<forall>i<length ks. cells ?w' (brk ?w1 + i) = cells ?w1 (the (m (ks ! i)))"
    using ih by blast+
  have upt: "[brk w..<brk w + length (k # ks)] = brk w # [brk ?w1..<brk ?w1 + length ks]"
    by (simp add: upt_conv_Cons del: upt_Suc)
  have r: "fst (List_range m (k # ks) res w) = res @ map Some [brk w..<brk w + length (k # ks)]"
    using ih1 by (simp only: step upt) simp
  have b: "brk (snd (List_range m (k # ks) res w)) = brk w + length (k # ks)"
    using ih2 unfolding step by simp
  have c: "clock (snd (List_range m (k # ks) res w)) = clock w"
    using ih3 unfolding step by simp
  have old: "\<forall>x<brk w. cells ?w' x = cells w x"
  proof (intro allI impI)
    fix x assume "x < brk w"
    with ih4 have "cells ?w' x = cells ?w1 x" by simp
    with \<open>x < brk w\<close> show "cells ?w' x = cells w x" by simp
  qed
  have first: "cells ?w' (brk w) = cells w a"
  proof -
    from ih4 have "cells ?w' (brk w) = cells ?w1 (brk w)" by simp
    then show ?thesis by simp
  qed
  have copies: "\<forall>i<length (k # ks). cells ?w' (brk w + i) = cells w (the (m ((k # ks) ! i)))"
  proof (intro allI impI)
    fix i assume i: "i < length (k # ks)"
    show "cells ?w' (brk w + i) = cells w (the (m ((k # ks) ! i)))"
    proof (cases i)
      case 0
      with first a show ?thesis by simp
    next
      case (Suc j)
      with i have j: "j < length ks" by simp
      then have "ks ! j \<in> set ks" by simp
      with Cons.prems obtain a' where a': "m (ks ! j) = Some a'" "a' < brk w" by auto
      from ih5 j have "cells ?w' (brk ?w1 + j) = cells ?w1 (the (m (ks ! j)))" by blast
      with a' Suc show ?thesis by simp
    qed
  qed
  from r b c old copies show ?case
    unfolding step by blast
qed

text \<open>
  Claim C9. \<open>List\<close> never returns an error and never the \<open>nil\<close> slice, and it leaves
  the store as it was. When \<open>ks\<close> is the order in which the loop visits the keys of
  the map (each key once), the slice has one address for each entry, as many as the
  map has entries; the addresses are new, one after the other from \<open>brk\<close>, none of them
  in the map; the record at each is equal to the stored record of its key; and no
  record that was there before has changed. On a map without entries the result is
  the empty slice, not \<open>nil\<close>, and nothing is allocated.
\<close>

theorem List_returns_copies:
  assumes order: "distinct ks" "set ks = dom (users (store w))"
    and allocated: "\<forall>k a. users (store w) k = Some a \<longrightarrow> a < brk w"
  shows "(let r = InMemoryUserRepository_List ks w; w' = snd r; n = card (dom (users (store w)))
          in fst r = (Some (map Some [brk w..<brk w + n]), None)
             \<and> map (cells w') [brk w..<brk w + n] = map (\<lambda>k. cells w (the (users (store w) k))) ks
             \<and> length ks = n
             \<and> store w' = store w \<and> clock w' = clock w \<and> brk w' = brk w + n
             \<and> (\<forall>a<brk w. cells w' a = cells w a)
             \<and> set [brk w..<brk w + n] \<inter> ran (users (store w)) = {})
       \<and> InMemoryUserRepository_List [] v = ((Some [], None), v)
       \<and> snd (fst (InMemoryUserRepository_List ks' v)) = None
       \<and> fst (fst (InMemoryUserRepository_List ks' v)) \<noteq> None
       \<and> store (snd (InMemoryUserRepository_List ks' v)) = store v"
proof -
  let ?m = "users (store w)"
  let ?L = "List_range ?m ks [] w"
  have n: "length ks = card (dom ?m)"
    using order by (metis distinct_card)
  have pre: "\<forall>k\<in>set ks. \<exists>a. ?m k = Some a \<and> a < brk w"
    using order(2) allocated by auto
  note L = List_range_copies [OF pre, of "[]"]
  have res: "fst ?L = map Some [brk w..<brk w + length ks]"
    and brk': "brk (snd ?L) = brk w + length ks"
    and clock': "clock (snd ?L) = clock w"
    and old: "\<forall>a<brk w. cells (snd ?L) a = cells w a"
    and copies: "\<forall>i<length ks. cells (snd ?L) (brk w + i) = cells w (the (?m (ks ! i)))"
    using L by simp_all
  have contents: "map (cells (snd ?L)) [brk w..<brk w + length ks] = map (\<lambda>k. cells w (the (?m k))) ks"
    using copies by (intro nth_equalityI) simp_all
  have fresh: "set [brk w..<brk w + length ks] \<inter> ran ?m = {}"
    using allocated by (fastforce simp: ran_def)
  have unfold: "InMemoryUserRepository_List ks w = ((Some (fst ?L), None), snd ?L)"
    by (simp add: InMemoryUserRepository_List_def split: prod.splits)
  have main: "fst (InMemoryUserRepository_List ks w) = (Some (map Some [brk w..<brk w + length ks]), None)"
    using res by (simp add: unfold)
  have w': "snd (InMemoryUserRepository_List ks w) = snd ?L"
    by (simp add: unfold)
  have general: "InMemoryUserRepository_List [] v = ((Some [], None), v)
       \<and> snd (fst (InMemoryUserRepository_List ks' v)) = None
       \<and> fst (fst (InMemoryUserRepository_List ks' v)) \<noteq> None
       \<and> store (snd (InMemoryUserRepository_List ks' v)) = store v"
    using List_range_store [of "users (store v)" ks' "[]" v]
    by (auto simp: InMemoryUserRepository_List_def split: prod.splits)
  show ?thesis
    unfolding Let_def w' n [symmetric]
    using main contents brk' clock' old fresh general List_range_store [of ?m ks "[]" w]
    by simp
qed

lemma world2_eq:
  "world2 =
     \<lparr>cells = (cells world0)(0 := john, 1 := john\<lparr>ID := 1, CreatedAt := 1000, UpdatedAt := 1000\<rparr>,
                              Suc (Suc 0) := john\<lparr>ID := 2, CreatedAt := 1000, UpdatedAt := 1000\<rparr>),
      brk = 3, clock = 1000,
      store = \<lparr>autoIncID = 2, users = [1 \<mapsto> 1, 2 \<mapsto> 2]\<rparr>\<rparr>"
  by (simp add: world2_def world0_def NewInMemoryUserRepository_def
      InMemoryUserRepository_Create_def new_def Let_def numeral_2_eq_2)

theorem List_returns_copies_witness:
  "fst (InMemoryUserRepository_List [2, 1] world2) = (Some [Some 3, Some 4], None)
   \<and> map (cells (snd (InMemoryUserRepository_List [2, 1] world2))) [3, 4] =
       [john\<lparr>ID := 2, CreatedAt := 1000, UpdatedAt := 1000\<rparr>,
        john\<lparr>ID := 1, CreatedAt := 1000, UpdatedAt := 1000\<rparr>]
   \<and> store (snd (InMemoryUserRepository_List [2, 1] world2)) = store world2
   \<and> InMemoryUserRepository_List [] world0 = ((Some [], None), world0)"
proof -
  have d: "distinct [2, 1 :: int64]"
    by simp
  have s: "set [2, 1 :: int64] = dom (users (store world2))"
    by (auto simp: world2_eq)
  have a: "\<forall>k a. users (store world2) k = Some a \<longrightarrow> a < brk world2"
    by (auto simp: world2_eq split: if_splits)
  have n: "card (dom (users (store world2))) = 2"
    by (simp add: s [symmetric])
  have b: "brk world2 = 3"
    by (simp add: world2_eq)
  have u: "[3..<5] = [3, 4 :: nat]"
    by (simp add: upt_rec)
  have c1: "cells world2 (the (users (store world2) 1)) = john\<lparr>ID := 1, CreatedAt := 1000, UpdatedAt := 1000\<rparr>"
    and c2: "cells world2 (the (users (store world2) 2)) = john\<lparr>ID := 2, CreatedAt := 1000, UpdatedAt := 1000\<rparr>"
    by (simp_all add: world2_eq numeral_2_eq_2)
  from List_returns_copies [OF d s a, of world0] show ?thesis
    by (simp add: Let_def n b u c1 c2)
qed

section \<open>Evaluating the library functions\<close>

lemmas TrimSpace_eval = TrimSpace_def TrimLeft.simps TrimRight.simps leading_space_def
  trailing_space_def space_runes_def suffix_to_prefix

section \<open>The application service\<close>

text \<open>
  Claim C7. When the trimmed name or the trimmed email is empty, \<open>CreateUser\<close> and
  \<open>UpdateUser\<close> return the error \<open>name and email are required\<close> and the state they
  were given, whatever the repository is: none of its methods has run. Otherwise they
  allocate a record with the trimmed name and email (and the identifier, for
  \<open>UpdateUser\<close>) and return what the repository's \<open>Create\<close> or \<open>Update\<close> returns on
  its address, which is not \<open>nil\<close>: over the in-memory store the service never returns
  the error \<open>nil user\<close>.
\<close>

theorem Service_validates_before_the_store:
  "(TrimSpace name = [] \<or> TrimSpace email = [] \<longrightarrow>
      UserService_CreateUser s name email w =
        ((None, Some (errorString ''name and email are required'')), w)
    \<and> UserService_UpdateUser s id' name email w =
        ((None, Some (errorString ''name and email are required'')), w))
   \<and> (TrimSpace name \<noteq> [] \<and> TrimSpace email \<noteq> [] \<longrightarrow>
      UserService_CreateUser s name email w =
        Create (repo s) (Some (brk w))
          (w\<lparr>cells := (cells w)(brk w := \<lparr>ID = 0, Name = TrimSpace name, Email = TrimSpace email,
                                            CreatedAt = 0, UpdatedAt = 0\<rparr>),
             brk := Suc (brk w)\<rparr>)
    \<and> UserService_UpdateUser s id' name email w =
        Update (repo s) (Some (brk w))
          (w\<lparr>cells := (cells w)(brk w := \<lparr>ID = id', Name = TrimSpace name, Email = TrimSpace email,
                                            CreatedAt = 0, UpdatedAt = 0\<rparr>),
             brk := Suc (brk w)\<rparr>))
   \<and> snd (fst (UserService_CreateUser (NewUserService (InMemory order)) name email v))
         \<noteq> Some (errorString ''nil user'')
   \<and> snd (fst (UserService_UpdateUser (NewUserService (InMemory order)) id' name email v))
         \<noteq> Some (errorString ''nil user'')"
  by (auto simp: UserService_CreateUser_def UserService_UpdateUser_def NewUserService_def
      InMemory_def InMemoryUserRepository_Create_def InMemoryUserRepository_Update_def
      new_def Let_def split: option.splits)

theorem Service_validates_before_the_store_witness:
  "UserService_CreateUser (NewUserService (InMemory key_order)) [CHR 0x09, CHR 0x20] ''alice@example.com'' world0 =
     ((None, Some (errorString ''name and email are required'')), world0)
   \<and> UserService_UpdateUser (NewUserService (InMemory key_order)) 1 ''Alice'' ''  '' world0 =
     ((None, Some (errorString ''name and email are required'')), world0)
   \<and> fst (UserService_CreateUser (NewUserService (InMemory key_order)) ''  Alice '' ''alice@example.com '' world0)
       = (Some 1, None)
   \<and> Name (cells (snd (UserService_CreateUser (NewUserService (InMemory key_order)) ''  Alice '' ''alice@example.com '' world0)) 1)
       = ''Alice''"
proof -
  have e1: "TrimSpace [CHR 0x09, CHR 0x20] = []" and e2: "TrimSpace ''  '' = []"
    and n1: "TrimSpace ''  Alice '' = ''Alice''" and n2: "TrimSpace ''alice@example.com '' = ''alice@example.com''"
    and n3: "TrimSpace ''alice@example.com'' = ''alice@example.com''" and n4: "TrimSpace ''Alice'' = ''Alice''"
    by (simp_all add: TrimSpace_eval)
  let ?s = "NewUserService (InMemory key_order)"
  from Service_validates_before_the_store
      [where name = "[CHR 0x09, CHR 0x20]" and email = "''alice@example.com''" and s = ?s and w = world0]
    Service_validates_before_the_store
      [where name = "''Alice''" and email = "''  ''" and s = ?s and w = world0 and id' = 1]
    Service_validates_before_the_store
      [where name = "''  Alice ''" and email = "''alice@example.com ''" and s = ?s and w = world0]
  show ?thesis
    by (simp add: e1 e2 n1 n2 n3 n4 NewUserService_def InMemory_def world0_def
        NewInMemoryUserRepository_def InMemoryUserRepository_Create_def new_def Let_def)
qed

text \<open>
  Claim C8. \<open>GetUser\<close>, \<open>ListUsers\<close> and \<open>DeleteUser\<close> return what the repository's
  \<open>GetByID\<close>, \<open>List\<close> and \<open>Delete\<close> return, result, error and state. When the trimmed
  name and email are both non-empty, \<open>CreateUser\<close> and \<open>UpdateUser\<close> return what the
  repository's \<open>Create\<close> and \<open>Update\<close> return on the record made of the trimmed values.
  Over the in-memory store these are the store's own results.
\<close>

theorem Service_passes_the_store_result:
  "UserService_GetUser s id' w = GetByID (repo s) id' w
   \<and> UserService_ListUsers s w = List (repo s) w
   \<and> UserService_DeleteUser s id' w = Delete (repo s) id' w
   \<and> (let name' = TrimSpace name; email' = TrimSpace email
       in name' \<noteq> [] \<and> email' \<noteq> [] \<longrightarrow>
          UserService_CreateUser s name email w =
            (let (u, w1) = new \<lparr>ID = 0, Name = name', Email = email', CreatedAt = 0, UpdatedAt = 0\<rparr> w
             in Create (repo s) (Some u) w1)
        \<and> UserService_UpdateUser s id' name email w =
            (let (u, w1) = new \<lparr>ID = id', Name = name', Email = email', CreatedAt = 0, UpdatedAt = 0\<rparr> w
             in Update (repo s) (Some u) w1))
   \<and> UserService_GetUser (NewUserService (InMemory order)) id' v = InMemoryUserRepository_GetByID id' v
   \<and> UserService_ListUsers (NewUserService (InMemory order)) v = InMemoryUserRepository_List (order v) v
   \<and> UserService_DeleteUser (NewUserService (InMemory order)) id' v = InMemoryUserRepository_Delete id' v"
  by (simp add: UserService_GetUser_def UserService_ListUsers_def UserService_DeleteUser_def
      UserService_CreateUser_def UserService_UpdateUser_def NewUserService_def InMemory_def Let_def)

theorem Service_passes_the_store_result_witness:
  "UserService_GetUser (NewUserService (InMemory key_order)) 999 world0 =
     ((None, Some (errorString ''user not found'')), world0)
   \<and> UserService_DeleteUser (NewUserService (InMemory key_order)) 999 world0 =
     (Some (errorString ''user not found''), world0)
   \<and> fst (UserService_CreateUser (NewUserService (InMemory key_order)) ''Alice'' ''alice@example.com'' world0)
       = (Some 1, None)
   \<and> fst (UserService_UpdateUser (NewUserService (InMemory key_order)) 999 ''Alice'' ''alice@example.com'' world0)
       = (None, Some (errorString ''user not found''))"
proof -
  have n3: "TrimSpace ''alice@example.com'' = ''alice@example.com''" and n4: "TrimSpace ''Alice'' = ''Alice''"
    by (simp_all add: TrimSpace_eval)
  from Service_passes_the_store_result
      [where s = "NewUserService (InMemory key_order)" and id' = 999 and w = world0
         and name = "''Alice''" and email = "''alice@example.com''" and v = world0 and order = key_order]
  show ?thesis
    by (simp add: n3 n4 NewUserService_def InMemory_def world0_def
        NewInMemoryUserRepository_def InMemoryUserRepository_Create_def
        InMemoryUserRepository_Update_def InMemoryUserRepository_GetByID_def
        InMemoryUserRepository_Delete_def new_def Let_def)
qed

section \<open>The transport adapter\<close>

text \<open>
  Claim C10. Once the path identifier has parsed, the handlers of GET and DELETE
  \<open>/api/v1/users/{id}\<close> answer any error of the service, whatever the error is, with
  the status 404 and the body \<open>{"error": "user not found"}\<close>; the error's own message
  is not in the response. The repository behind the service is any implementation
  of the port.
\<close>

theorem Get_and_Delete_report_every_failure_as_not_found:
  assumes "parseID r = Some id'"
  shows "(snd (fst (UserService_GetUser (service h) id' w)) \<noteq> None \<longrightarrow>
            fst (UserHandler_GetUser h r w) = writeJSON StatusNotFound (JSON_error ''user not found''))
       \<and> (fst (UserService_DeleteUser (service h) id' w) \<noteq> None \<longrightarrow>
            fst (UserHandler_DeleteUser h r w) = writeJSON StatusNotFound (JSON_error ''user not found''))"
  using assms
  by (auto simp: UserHandler_GetUser_def UserHandler_DeleteUser_def split: prod.splits option.splits)

theorem Get_and_Delete_report_every_failure_as_not_found_witness:
  "snd (fst (UserService_GetUser (NewUserService unreachable_repository) 7 world0))
     = Some (errorString ''connection refused'')
   \<and> fst (UserService_DeleteUser (NewUserService unreachable_repository) 7 world0)
     = Some (errorString ''connection refused'')
   \<and> fst (UserHandler_GetUser (NewUserHandler (NewUserService unreachable_repository))
          \<lparr>PathValue_id = ''7'', Body = None\<rparr> world0)
     = \<lparr>status = 404, Content_Type = Some ''application/json'', body = Some (JSON_error ''user not found'')\<rparr>
   \<and> fst (UserHandler_DeleteUser (NewUserHandler (NewUserService unreachable_repository))
          \<lparr>PathValue_id = ''7'', Body = None\<rparr> world0)
     = \<lparr>status = 404, Content_Type = Some ''application/json'', body = Some (JSON_error ''user not found'')\<rparr>"
proof -
  let ?h = "NewUserHandler (NewUserService unreachable_repository)"
  let ?r = "\<lparr>PathValue_id = ''7'', Body = None\<rparr>"
  have p: "parseID ?r = Some 7"
    by (simp add: parseID_def ParseInt_def)
  have g: "snd (fst (UserService_GetUser (NewUserService unreachable_repository) 7 world0))
     = Some (errorString ''connection refused'')"
    and d: "fst (UserService_DeleteUser (NewUserService unreachable_repository) 7 world0)
     = Some (errorString ''connection refused'')"
    by (simp_all add: UserService_GetUser_def UserService_DeleteUser_def NewUserService_def
        unreachable_repository_def)
  from Get_and_Delete_report_every_failure_as_not_found [OF p, of ?h world0] g d
  show ?thesis
    by (simp add: NewUserHandler_def writeJSON_def)
qed

text \<open>
  Claim C6 says that a PUT for an identifier that is not stored yields 404. On a new
  in-memory store, PUT \<open>/api/v1/users/7\<close> with a well-formed body yields 400 with the
  body \<open>{"error": "user not found"}\<close>: \<open>UpdateUser\<close> answers every error of the service
  with \<open>StatusBadRequest\<close> and the error's message.
\<close>

theorem Put_unknown_id_is_bad_request:
  "users (store world0) 7 = None
   \<and> fst (UserHandler_UpdateUser (NewUserHandler (NewUserService (InMemory key_order)))
          \<lparr>PathValue_id = ''7'', Body = Some (''Alice'', ''alice@example.com'')\<rparr> world0)
       = \<lparr>status = 400, Content_Type = Some ''application/json'',
          body = Some (JSON_error ''user not found'')\<rparr>
   \<and> status (fst (UserHandler_UpdateUser (NewUserHandler (NewUserService (InMemory key_order)))
          \<lparr>PathValue_id = ''7'', Body = Some (''Alice'', ''alice@example.com'')\<rparr> world0))
       \<noteq> StatusNotFound"
proof -
  have n3: "TrimSpace ''alice@example.com'' = ''alice@example.com''" and n4: "TrimSpace ''Alice'' = ''Alice''"
    by (simp_all add: TrimSpace_eval)
  show ?thesis
    by (simp add: n3 n4 UserHandler_UpdateUser_def parseID_def ParseInt_def writeJSON_def
        UserService_UpdateUser_def NewUserHandler_def NewUserService_def InMemory_def
        InMemoryUserRepository_Update_def world0_def NewInMemoryUserRepository_def new_def Let_def)
qed

text \<open>
  Claim C6, amended. A body that does not decode, and a name or email that is empty
  after trimming, yield 400 on POST and on PUT. Over the in-memory store, an
  identifier that is not stored yields 404 with \<open>user not found\<close> on GET and on DELETE,
  and 400 with \<open>user not found\<close> on PUT; a DELETE of a stored identifier yields 204 with
  no \<open>Content-Type\<close> and no body.
\<close>

theorem Handler_status_of_failures:
  "(Body r = None \<longrightarrow>
      fst (UserHandler_CreateUser h r w) = writeJSON StatusBadRequest (JSON_error ''invalid JSON''))
   \<and> (parseID r \<noteq> None \<and> Body r = None \<longrightarrow>
      fst (UserHandler_UpdateUser h r w) = writeJSON StatusBadRequest (JSON_error ''invalid JSON''))
   \<and> (Body r = Some (n, e) \<and> (TrimSpace n = [] \<or> TrimSpace e = []) \<longrightarrow>
      fst (UserHandler_CreateUser h r w) =
        writeJSON StatusBadRequest (JSON_error ''name and email are required''))
   \<and> (parseID r \<noteq> None \<and> Body r = Some (n, e) \<and> (TrimSpace n = [] \<or> TrimSpace e = []) \<longrightarrow>
      fst (UserHandler_UpdateUser h r w) =
        writeJSON StatusBadRequest (JSON_error ''name and email are required''))
   \<and> (let hm = NewUserHandler (NewUserService (InMemory order))
       in (parseID r = Some i \<and> users (store v) i = None \<longrightarrow>
             fst (UserHandler_GetUser hm r v) = writeJSON StatusNotFound (JSON_error ''user not found'')
           \<and> fst (UserHandler_DeleteUser hm r v) = writeJSON StatusNotFound (JSON_error ''user not found''))
        \<and> (parseID r = Some i \<and> users (store v) i = None \<and> Body r = Some (n, e)
             \<and> TrimSpace n \<noteq> [] \<and> TrimSpace e \<noteq> [] \<longrightarrow>
             fst (UserHandler_UpdateUser hm r v) = writeJSON StatusBadRequest (JSON_error ''user not found''))
        \<and> (parseID r = Some i \<and> users (store v) i \<noteq> None \<longrightarrow>
             fst (UserHandler_DeleteUser hm r v) =
               \<lparr>status = StatusNoContent, Content_Type = None, body = None\<rparr>))"
  by (auto simp: UserHandler_CreateUser_def UserHandler_UpdateUser_def UserHandler_GetUser_def
      UserHandler_DeleteUser_def UserService_CreateUser_def UserService_UpdateUser_def
      UserService_GetUser_def UserService_DeleteUser_def NewUserHandler_def NewUserService_def
      InMemory_def InMemoryUserRepository_GetByID_def InMemoryUserRepository_Update_def
      InMemoryUserRepository_Delete_def new_def Let_def split: option.splits prod.splits)

theorem Handler_status_of_failures_witness:
  "fst (UserHandler_CreateUser (NewUserHandler (NewUserService (InMemory key_order)))
          \<lparr>PathValue_id = [], Body = None\<rparr> world0)
     = \<lparr>status = 400, Content_Type = Some ''application/json'', body = Some (JSON_error ''invalid JSON'')\<rparr>
   \<and> fst (UserHandler_UpdateUser (NewUserHandler (NewUserService (InMemory key_order)))
          \<lparr>PathValue_id = ''1'', Body = Some (''  '', ''alice@example.com'')\<rparr> world1)
     = \<lparr>status = 400, Content_Type = Some ''application/json'',
        body = Some (JSON_error ''name and email are required'')\<rparr>
   \<and> fst (UserHandler_GetUser (NewUserHandler (NewUserService (InMemory key_order)))
          \<lparr>PathValue_id = ''7'', Body = None\<rparr> world1)
     = \<lparr>status = 404, Content_Type = Some ''application/json'', body = Some (JSON_error ''user not found'')\<rparr>
   \<and> fst (UserHandler_UpdateUser (NewUserHandler (NewUserService (InMemory key_order)))
          \<lparr>PathValue_id = ''7'', Body = Some (''Alice'', ''alice@example.com'')\<rparr> world1)
     = \<lparr>status = 400, Content_Type = Some ''application/json'', body = Some (JSON_error ''user not found'')\<rparr>
   \<and> fst (UserHandler_DeleteUser (NewUserHandler (NewUserService (InMemory key_order)))
          \<lparr>PathValue_id = ''1'', Body = None\<rparr> world1)
     = \<lparr>status = 204, Content_Type = None, body = None\<rparr>"
proof -
  let ?h = "NewUserHandler (NewUserService (InMemory key_order))"
  have t: "TrimSpace ''  '' = []" "TrimSpace ''alice@example.com'' = ''alice@example.com''"
    "TrimSpace ''Alice'' = ''Alice''"
    by (simp_all add: TrimSpace_eval)
  have p: "parseID \<lparr>PathValue_id = ''1'', Body = b\<rparr> = Some 1"
    "parseID \<lparr>PathValue_id = ''7'', Body = b\<rparr> = Some 7" for b
    by (simp_all add: parseID_def ParseInt_def)
  have u: "users (store world1) 7 = None" "users (store world1) 1 = Some 1"
    by (simp_all add: world1_eq)
  from Handler_status_of_failures
      [where r = "\<lparr>PathValue_id = [], Body = None\<rparr>" and h = ?h and w = world0]
  have a: "fst (UserHandler_CreateUser ?h \<lparr>PathValue_id = [], Body = None\<rparr> world0)
     = writeJSON StatusBadRequest (JSON_error ''invalid JSON'')"
    by simp
  from Handler_status_of_failures
      [where r = "\<lparr>PathValue_id = ''1'', Body = Some (''  '', ''alice@example.com'')\<rparr>"
         and h = ?h and w = world1 and n = "''  ''" and e = "''alice@example.com''"]
  have b: "fst (UserHandler_UpdateUser ?h
        \<lparr>PathValue_id = ''1'', Body = Some (''  '', ''alice@example.com'')\<rparr> world1)
     = writeJSON StatusBadRequest (JSON_error ''name and email are required'')"
    by (simp add: t p)
  from Handler_status_of_failures
      [where r = "\<lparr>PathValue_id = ''7'', Body = None\<rparr>" and order = key_order and v = world1 and i = 7
         and h = ?h and w = world1]
  have c: "fst (UserHandler_GetUser ?h \<lparr>PathValue_id = ''7'', Body = None\<rparr> world1)
     = writeJSON StatusNotFound (JSON_error ''user not found'')"
    by (simp add: p u Let_def)
  from Handler_status_of_failures
      [where r = "\<lparr>PathValue_id = ''7'', Body = Some (''Alice'', ''alice@example.com'')\<rparr>"
         and order = key_order and v = world1 and i = 7 and n = "''Alice''" and e = "''alice@example.com''"
         and h = ?h and w = world1]
  have d: "fst (UserHandler_UpdateUser ?h
        \<lparr>PathValue_id = ''7'', Body = Some (''Alice'', ''alice@example.com'')\<rparr> world1)
     = writeJSON StatusBadRequest (JSON_error ''user not found'')"
    by (simp add: t p u Let_def)
  from Handler_status_of_failures
      [where r = "\<lparr>PathValue_id = ''1'', Body = None\<rparr>" and order = key_order and v = world1 and i = 1
         and h = ?h and w = world1]
  have e: "fst (UserHandler_DeleteUser ?h \<lparr>PathValue_id = ''1'', Body = None\<rparr> world1)
     = \<lparr>status = StatusNoContent, Content_Type = None, body = None\<rparr>"
    by (simp add: p u Let_def)
  from a b c d e show ?thesis
    by (simp add: writeJSON_def)
qed

end
